theory Spec2Isabelle
  imports Complex_Main "HOL-Library.Word"
begin

unbundle bit_operations_syntax

section \<open>Data model (include/arunika.h)\<close>

text \<open>
  The firmware is single-threaded C. Every file-scope \<^verbatim>\<open>static\<close> variable of the
  program becomes a field of one record of globals, every function takes the globals and
  returns its C return value together with the globals it leaves behind. C \<^verbatim>\<open>int\<close>
  return codes are \<open>int\<close>; \<^verbatim>\<open>uint8_t\<close>, \<^verbatim>\<open>uint16_t\<close>, \<^verbatim>\<open>uint32_t\<close> are words.
  A pointer argument is an \<open>option\<close>: \<open>None\<close> is \<^verbatim>\<open>NULL\<close>, \<open>Some v\<close> points at \<open>v\<close>.
\<close>

datatype device_state_t =
    DEVICE_STATE_INIT
  | DEVICE_STATE_CONNECTING
  | DEVICE_STATE_CONNECTED
  | DEVICE_STATE_RECORDING
  | DEVICE_STATE_PROCESSING
  | DEVICE_STATE_PLAYING
  | DEVICE_STATE_IDLE
  | DEVICE_STATE_ERROR

datatype audio_format_t = AUDIO_FORMAT_PCM | AUDIO_FORMAT_MULAW | AUDIO_FORMAT_ALAW

text \<open>
  \<^verbatim>\<open>device_config_t\<close>. The four \<^verbatim>\<open>char\<close> arrays are kept as the bytes of the array
  (a \<open>string\<close> is a list of 8-bit characters); \<^verbatim>\<open>memcpy\<close> of the whole struct is
  assignment of the whole record.
\<close>

record device_config_t =
  wifi_ssid :: string
  wifi_password :: string
  server_url :: string
  device_id :: string
  server_port :: "16 word"
  audio_format :: audio_format_t

text \<open>\<^verbatim>\<open>audio_buffer_t\<close>; the field \<^verbatim>\<open>size\<close> is \<open>size_b\<close> here.\<close>

record audio_buffer_t =
  data :: "8 word list option"
  size_b :: nat
  capacity :: nat
  sample_rate :: "32 word"
  format :: audio_format_t

abbreviation SAMPLE_RATE :: "32 word" where "SAMPLE_RATE \<equiv> 8000"

text \<open>\<^verbatim>\<open>arunika_error_t\<close>: the enumerators with their values.\<close>

abbreviation ARUNIKA_OK :: int where "ARUNIKA_OK \<equiv> 0"
abbreviation ARUNIKA_ERROR_INIT :: int where "ARUNIKA_ERROR_INIT \<equiv> - 1"
abbreviation ARUNIKA_ERROR_CONFIG :: int where "ARUNIKA_ERROR_CONFIG \<equiv> - 2"
abbreviation ARUNIKA_ERROR_NETWORK :: int where "ARUNIKA_ERROR_NETWORK \<equiv> - 3"
abbreviation ARUNIKA_ERROR_AUDIO :: int where "ARUNIKA_ERROR_AUDIO \<equiv> - 4"
abbreviation ARUNIKA_ERROR_WEBSOCKET :: int where "ARUNIKA_ERROR_WEBSOCKET \<equiv> - 5"
abbreviation ARUNIKA_ERROR_MEMORY :: int where "ARUNIKA_ERROR_MEMORY \<equiv> - 6"
abbreviation ARUNIKA_ERROR_TIMEOUT :: int where "ARUNIKA_ERROR_TIMEOUT \<equiv> - 7"
abbreviation ARUNIKA_ERROR_INVALID_PARAM :: int where "ARUNIKA_ERROR_INVALID_PARAM \<equiv> - 8"

text \<open>
  What the program does that an observer outside can see, in program order: the
  transitions announced by \<^verbatim>\<open>device_set_state\<close>, the calls of
  \<^verbatim>\<open>websocket_send_audio_chunk\<close> with the sequence number passed and the code returned,
  the buffers accepted by \<^verbatim>\<open>audio_play_buffer\<close> (by their size), and the calls of
  \<^verbatim>\<open>delay_ms\<close>.
\<close>

datatype event =
    StateTransition device_state_t device_state_t
  | SendAudioChunk "32 word" int
  | PlayBuffer nat
  | Delay "32 word"

text \<open>
  The globals: \<^verbatim>\<open>current_state\<close> (device.c), \<^verbatim>\<open>websocket_connected\<close> (websocket.c),
  \<^verbatim>\<open>audio_initialized\<close> and \<^verbatim>\<open>is_recording\<close> (audio.c), \<^verbatim>\<open>network_initialized\<close> and
  \<^verbatim>\<open>wifi_connected\<close> (network.c), \<^verbatim>\<open>power_initialized\<close>, \<^verbatim>\<open>battery_level\<close> and the
  function-local static \<^verbatim>\<open>last_check\<close> (power.c), \<^verbatim>\<open>default_config\<close> (config.c), and
  the function-local static \<^verbatim>\<open>sequence\<close> of \<^verbatim>\<open>main\<close>, a C \<^verbatim>\<open>int\<close> kept as a 32-bit
  word read with \<open>sint\<close>. The field \<open>trace\<close> is not a variable of the program: it
  collects the events above, oldest first.
\<close>

record globals =
  current_state :: device_state_t
  websocket_connected :: bool
  audio_initialized :: bool
  is_recording :: bool
  network_initialized :: bool
  wifi_connected :: bool
  power_initialized :: bool
  battery_level :: "8 word"
  last_check :: "32 word"
  default_config :: device_config_t
  sequence :: "32 word"
  trace :: "event list"

definition emit :: "event \<Rightarrow> globals \<Rightarrow> globals" where
  "emit e s = s\<lparr>trace := trace s @ [e]\<rparr>"

section \<open>Configuration store (src/config.c)\<close>

text \<open>
  A \<^verbatim>\<open>char\<close> array initialised from a shorter string literal is filled up with
  zero bytes.
\<close>

definition char_array :: "nat \<Rightarrow> string \<Rightarrow> string" where
  "char_array n lit = lit @ replicate (n - length lit) (CHR 0x00)"

definition initial_default_config :: device_config_t where
  "initial_default_config =
     \<lparr>wifi_ssid = char_array 32 ''YourWiFiNetwork'',
      wifi_password = char_array 64 ''YourWiFiPassword'',
      server_url = char_array 256 ''wss://api.arunika.com'',
      device_id = char_array 32 ''ARUN_DEV_001234'',
      server_port = 443,
      audio_format = AUDIO_FORMAT_MULAW\<rparr>"

text \<open>
  \<^verbatim>\<open>config_load\<close> writes through its pointer and leaves the globals alone: it returns
  the code and what the pointer points at afterwards.
\<close>

definition config_load :: "device_config_t option \<Rightarrow> globals \<Rightarrow> int \<times> device_config_t option" where
  "config_load config s =
     (case config of
        None \<Rightarrow> (ARUNIKA_ERROR_INVALID_PARAM, None)
      | Some _ \<Rightarrow> (ARUNIKA_OK, Some (default_config s)))"

definition config_save :: "device_config_t option \<Rightarrow> globals \<Rightarrow> int \<times> globals" where
  "config_save config s =
     (case config of
        None \<Rightarrow> (ARUNIKA_ERROR_INVALID_PARAM, s)
      | Some c \<Rightarrow> (ARUNIKA_OK, s\<lparr>default_config := c\<rparr>))"


section \<open>Clock and delay (src/utils.c)\<close>

text \<open>
  \<^verbatim>\<open>get_timestamp_ms\<close> reads the monotonic clock: its result is an input of the model,
  passed to whoever calls it. \<^verbatim>\<open>delay_ms\<close> only lets time pass.
\<close>

definition delay_ms :: "32 word \<Rightarrow> globals \<Rightarrow> globals" where
  "delay_ms ms s = emit (Delay ms) s"

section \<open>Base64 (src/utils.c)\<close>

definition base64_table :: string where
  "base64_table = ''ABCDEFGHIJKLMNOPQRSTUVWXYZabcdefghijklmnopqrstuvwxyz0123456789+/''"

text \<open>
  A pointer with the length that goes with it is one list: \<^verbatim>\<open>input\<close> with
  \<^verbatim>\<open>input_len\<close> is the list of the \<^verbatim>\<open>input_len\<close> bytes, \<^verbatim>\<open>output\<close> with
  \<^verbatim>\<open>output_len\<close> is the buffer of \<^verbatim>\<open>output_len\<close> characters as it stands before the
  call, and the function returns the buffer as it leaves it. Sizes (\<^verbatim>\<open>size_t\<close>) are
  natural numbers: a size computed here is at most four thirds of the size of a buffer
  that exists, plus one. The value returned is a C \<^verbatim>\<open>int\<close>: \<open>int_of_size_t\<close> is
  the conversion of a \<^verbatim>\<open>size_t\<close> to a 32-bit \<^verbatim>\<open>int\<close>, which keeps the low 32 bits.
\<close>

definition int_of_size_t :: "nat \<Rightarrow> int" where
  "int_of_size_t n = sint (word_of_nat n :: 32 word)"

text \<open>
  The first loop of \<^verbatim>\<open>base64_encode\<close>, from the values of \<^verbatim>\<open>i\<close> and \<^verbatim>\<open>j\<close> at the
  head of a pass. \<^verbatim>\<open>i < input_len ? input[i++] : 0\<close> is the pair of the octet and the
  next \<^verbatim>\<open>i\<close>; \<^verbatim>\<open><<\<close> is \<open>push_bit\<close> and \<^verbatim>\<open>>>\<close> is \<open>drop_bit\<close> on \<^verbatim>\<open>uint32_t\<close>.
\<close>

function base64_encode_loop :: "8 word list \<Rightarrow> nat \<Rightarrow> nat \<Rightarrow> string \<Rightarrow> string" where
  "base64_encode_loop input i j output =
     (let input_len = length input in
      if i < input_len then
        (let octet_a = (if i < input_len then ucast (input ! i) else 0) :: 32 word;
             i1 = (if i < input_len then i + 1 else i);
             octet_b = (if i1 < input_len then ucast (input ! i1) else 0) :: 32 word;
             i2 = (if i1 < input_len then i1 + 1 else i1);
             octet_c = (if i2 < input_len then ucast (input ! i2) else 0) :: 32 word;
             i3 = (if i2 < input_len then i2 + 1 else i2);
             triple = push_bit 16 octet_a + push_bit 8 octet_b + octet_c;
             output1 = output[j := base64_table ! unat (drop_bit (3 * 6) triple AND 0x3F)];
             output2 = output1[j + 1 := base64_table ! unat (drop_bit (2 * 6) triple AND 0x3F)];
             output3 = output2[j + 2 := base64_table ! unat (drop_bit (1 * 6) triple AND 0x3F)];
             output4 = output3[j + 3 := base64_table ! unat (drop_bit (0 * 6) triple AND 0x3F)]
         in base64_encode_loop input i3 (j + 4) output4)
      else output)"
  by pat_completeness auto
termination
  by (relation "measure (\<lambda>(input, i, j, output). length input - i)") auto

declare base64_encode_loop.simps [simp del]

text \<open>The second loop: \<^verbatim>\<open>for (i = 0; i < (3 - input_len % 3) % 3; i++)\<close>.\<close>

definition base64_add_padding :: "nat \<Rightarrow> nat \<Rightarrow> string \<Rightarrow> string" where
  "base64_add_padding input_len encoded_len output =
     fold (\<lambda>i out. out[encoded_len - 1 - i := CHR ''='']) [0..<(3 - input_len mod 3) mod 3] output"

definition base64_encode :: "8 word list option \<Rightarrow> string option \<Rightarrow> int \<times> string option" where
  "base64_encode input output =
     (case (input, output) of
        (Some inp, Some out) \<Rightarrow>
          (let input_len = length inp; output_len = length out in
           if input_len = 0 then (ARUNIKA_ERROR_INVALID_PARAM, output)
           else
             let encoded_len = 4 * ((input_len + 2) div 3) in
             if output_len < encoded_len + 1 then (ARUNIKA_ERROR_MEMORY, output)
             else
               let out1 = base64_encode_loop inp 0 0 out;
                   out2 = base64_add_padding input_len encoded_len out1;
                   out3 = out2[encoded_len := CHR 0x00]
               in (int_of_size_t encoded_len, Some out3))
      | _ \<Rightarrow> (ARUNIKA_ERROR_INVALID_PARAM, output))"

definition base64_decode :: "string option \<Rightarrow> 8 word list option \<Rightarrow> int \<times> 8 word list option" where
  "base64_decode input output =
     (if input = None \<or> output = None then (ARUNIKA_ERROR_INVALID_PARAM, output)
      else (ARUNIKA_ERROR_INIT, output))"

text \<open>The C string held by a character array: the characters before the first zero.\<close>

definition c_str :: "string \<Rightarrow> string" where
  "c_str a = takeWhile (\<lambda>c. c \<noteq> CHR 0x00) a"

section \<open>Audio (src/audio.c)\<close>

definition audio_init :: "globals \<Rightarrow> int \<times> globals" where
  "audio_init s = (ARUNIKA_OK, s\<lparr>audio_initialized := True\<rparr>)"

definition audio_start_recording :: "globals \<Rightarrow> int \<times> globals" where
  "audio_start_recording s =
     (if \<not> audio_initialized s then (ARUNIKA_ERROR_AUDIO, s)
      else (ARUNIKA_OK, s\<lparr>is_recording := True\<rparr>))"

definition audio_stop_recording :: "globals \<Rightarrow> int \<times> globals" where
  "audio_stop_recording s =
     (if \<not> is_recording s then (ARUNIKA_OK, s)
      else (ARUNIKA_OK, s\<lparr>is_recording := False\<rparr>))"

definition audio_read_buffer :: "audio_buffer_t option \<Rightarrow> globals \<Rightarrow> int \<times> audio_buffer_t option" where
  "audio_read_buffer buffer s =
     (case buffer of
        None \<Rightarrow> (ARUNIKA_ERROR_INVALID_PARAM, None)
      | Some b \<Rightarrow>
          if \<not> is_recording s then (ARUNIKA_ERROR_INVALID_PARAM, Some b)
          else (ARUNIKA_OK,
                Some (b\<lparr>size_b := 512, sample_rate := SAMPLE_RATE, format := AUDIO_FORMAT_MULAW\<rparr>)))"

definition audio_play_buffer :: "audio_buffer_t option \<Rightarrow> globals \<Rightarrow> int \<times> globals" where
  "audio_play_buffer buffer s =
     (case buffer of
        None \<Rightarrow> (ARUNIKA_ERROR_INVALID_PARAM, s)
      | Some b \<Rightarrow>
          if \<not> audio_initialized s then (ARUNIKA_ERROR_INVALID_PARAM, s)
          else (ARUNIKA_OK, emit (PlayBuffer (size_b b)) s))"

definition audio_set_volume :: "8 word \<Rightarrow> globals \<Rightarrow> int \<times> globals" where
  "audio_set_volume volume s = (ARUNIKA_OK, s)"

section \<open>Network (src/network.c)\<close>

definition network_init :: "globals \<Rightarrow> int \<times> globals" where
  "network_init s = (ARUNIKA_OK, s\<lparr>network_initialized := True\<rparr>)"

definition network_connect_wifi :: "string option \<Rightarrow> string option \<Rightarrow> globals \<Rightarrow> int \<times> globals" where
  "network_connect_wifi ssid password s =
     (if \<not> network_initialized s \<or> ssid = None \<or> password = None
      then (ARUNIKA_ERROR_INVALID_PARAM, s)
      else (ARUNIKA_OK, (delay_ms 2000 s)\<lparr>wifi_connected := True\<rparr>))"

definition network_disconnect_wifi :: "globals \<Rightarrow> int \<times> globals" where
  "network_disconnect_wifi s =
     (if \<not> wifi_connected s then (ARUNIKA_OK, s)
      else (ARUNIKA_OK, s\<lparr>wifi_connected := False\<rparr>))"

definition network_is_connected :: "globals \<Rightarrow> bool" where
  "network_is_connected s = wifi_connected s"

section \<open>Power (src/power.c)\<close>

definition power_init :: "globals \<Rightarrow> int \<times> globals" where
  "power_init s = (ARUNIKA_OK, s\<lparr>power_initialized := True\<rparr>)"

definition power_enter_sleep_mode :: "globals \<Rightarrow> int \<times> globals" where
  "power_enter_sleep_mode s =
     (if \<not> power_initialized s then (ARUNIKA_ERROR_INIT, s) else (ARUNIKA_OK, s))"

definition power_wake_up :: "globals \<Rightarrow> int \<times> globals" where
  "power_wake_up s = (ARUNIKA_OK, s)"

text \<open>The argument \<open>current_time\<close> is what \<^verbatim>\<open>get_timestamp_ms()\<close> returns in this call.\<close>

definition power_get_battery_level :: "32 word \<Rightarrow> globals \<Rightarrow> 8 word \<times> globals" where
  "power_get_battery_level current_time s =
     (if \<not> power_initialized s then (0, s)
      else if current_time - last_check s > 10000 then
        (let s1 = (if battery_level s > 0 then s\<lparr>battery_level := battery_level s - 1\<rparr> else s);
             s2 = s1\<lparr>last_check := current_time\<rparr>
         in (battery_level s2, s2))
      else (battery_level s, s))"

definition power_is_charging :: "globals \<Rightarrow> bool" where
  "power_is_charging s = False"

section \<open>Duplex channel (src/websocket.c)\<close>

definition websocket_connect :: "string option \<Rightarrow> 16 word \<Rightarrow> string option \<Rightarrow> globals \<Rightarrow> int \<times> globals" where
  "websocket_connect url port path s =
     (if url = None \<or> path = None then (ARUNIKA_ERROR_INVALID_PARAM, s)
      else (ARUNIKA_OK, (delay_ms 1000 s)\<lparr>websocket_connected := True\<rparr>))"

definition websocket_disconnect :: "globals \<Rightarrow> int \<times> globals" where
  "websocket_disconnect s =
     (if \<not> websocket_connected s then (ARUNIKA_OK, s)
      else (ARUNIKA_OK, s\<lparr>websocket_connected := False\<rparr>))"

text \<open>
  Every call is recorded in the trace with the sequence number it was given and the
  code it returns, the rejected calls too.
\<close>

definition websocket_send_audio_chunk :: "audio_buffer_t option \<Rightarrow> 32 word \<Rightarrow> globals \<Rightarrow> int \<times> globals" where
  "websocket_send_audio_chunk buffer seq s =
     (if buffer = None \<or> \<not> websocket_connected s
      then (ARUNIKA_ERROR_INVALID_PARAM, emit (SendAudioChunk seq ARUNIKA_ERROR_INVALID_PARAM) s)
      else (ARUNIKA_OK, emit (SendAudioChunk seq ARUNIKA_OK) s))"

definition websocket_send_ping :: "globals \<Rightarrow> int \<times> globals" where
  "websocket_send_ping s =
     (if \<not> websocket_connected s then (ARUNIKA_ERROR_WEBSOCKET, s) else (ARUNIKA_OK, s))"

text \<open>The buffer is never written, so only the code is returned.\<close>

definition websocket_receive_message :: "string option \<Rightarrow> nat \<Rightarrow> globals \<Rightarrow> int" where
  "websocket_receive_message buffer buffer_size s =
     (if buffer = None \<or> buffer_size = 0 \<or> \<not> websocket_connected s
      then ARUNIKA_ERROR_INVALID_PARAM
      else 0)"

definition websocket_is_connected :: "globals \<Rightarrow> bool" where
  "websocket_is_connected s = websocket_connected s"

section \<open>Device controller (src/device.c)\<close>

text \<open>
  \<^verbatim>\<open>device_init\<close> calls the four subsystem initialisers and returns at the first one
  that does not answer \<^verbatim>\<open>ARUNIKA_OK\<close>. The initialisers under src/ are placeholders for
  the hardware drivers and always answer \<^verbatim>\<open>ARUNIKA_OK\<close>. The callers are written over
  a record of the functions they call, \<open>device_init_with\<close> and \<open>main_with\<close>, and
  \<open>device_init\<close> and \<open>main\<close> are these at \<open>firmware\<close>, the functions of src/.
\<close>

record drivers =
  drv_config_load :: "device_config_t option \<Rightarrow> globals \<Rightarrow> int \<times> device_config_t option"
  drv_audio_init :: "globals \<Rightarrow> int \<times> globals"
  drv_network_init :: "globals \<Rightarrow> int \<times> globals"
  drv_power_init :: "globals \<Rightarrow> int \<times> globals"
  drv_network_connect_wifi :: "string option \<Rightarrow> string option \<Rightarrow> globals \<Rightarrow> int \<times> globals"

definition firmware :: drivers where
  "firmware =
     \<lparr>drv_config_load = config_load,
      drv_audio_init = audio_init,
      drv_network_init = network_init,
      drv_power_init = power_init,
      drv_network_connect_wifi = network_connect_wifi\<rparr>"

text \<open>
  What an uninitialised local \<^verbatim>\<open>device_config_t\<close> or \<^verbatim>\<open>audio_buffer_t\<close> holds before
  the callee fills it in. The program never reads these values.
\<close>

definition uninitialized_config :: device_config_t where
  "uninitialized_config =
     \<lparr>wifi_ssid = [], wifi_password = [], server_url = [], device_id = [],
      server_port = 0, audio_format = AUDIO_FORMAT_PCM\<rparr>"

definition uninitialized_buffer :: audio_buffer_t where
  "uninitialized_buffer =
     \<lparr>data = None, size_b = 0, capacity = 0, sample_rate = 0, format = AUDIO_FORMAT_PCM\<rparr>"

definition device_set_state :: "device_state_t \<Rightarrow> globals \<Rightarrow> int \<times> globals" where
  "device_set_state state s =
     (ARUNIKA_OK, (emit (StateTransition (current_state s) state) s)\<lparr>current_state := state\<rparr>)"

definition device_get_state :: "globals \<Rightarrow> device_state_t" where
  "device_get_state s = current_state s"

definition device_init_with :: "drivers \<Rightarrow> globals \<Rightarrow> int \<times> globals" where
  "device_init_with d s =
     (if fst (drv_config_load d (Some uninitialized_config) s) \<noteq> ARUNIKA_OK
      then (ARUNIKA_ERROR_CONFIG, s)
      else
        let (a, s1) = drv_audio_init d s in
        if a \<noteq> ARUNIKA_OK then (ARUNIKA_ERROR_AUDIO, s1)
        else
          let (n, s2) = drv_network_init d s1 in
          if n \<noteq> ARUNIKA_OK then (ARUNIKA_ERROR_NETWORK, s2)
          else
            let (p, s3) = drv_power_init d s2 in
            if p \<noteq> ARUNIKA_OK then (ARUNIKA_ERROR_INIT, s3)
            else (ARUNIKA_OK, snd (device_set_state DEVICE_STATE_IDLE s3)))"

definition device_init :: "globals \<Rightarrow> int \<times> globals" where
  "device_init = device_init_with firmware"

definition device_handle_button_press :: "globals \<Rightarrow> int \<times> globals" where
  "device_handle_button_press s =
     (case current_state s of
        DEVICE_STATE_IDLE \<Rightarrow>
          (let (r, s1) = audio_start_recording s in
           if r = ARUNIKA_OK then (ARUNIKA_OK, snd (device_set_state DEVICE_STATE_RECORDING s1))
           else (ARUNIKA_OK, s1))
      | DEVICE_STATE_RECORDING \<Rightarrow>
          (let s1 = snd (audio_stop_recording s)
           in (ARUNIKA_OK, snd (device_set_state DEVICE_STATE_PROCESSING s1)))
      | _ \<Rightarrow> (ARUNIKA_OK, s))"

text \<open>
  \<^verbatim>\<open>strstr\<close> on C strings (the characters before the terminating zero): the offset of
  the first occurrence of the needle, \<open>None\<close> for \<^verbatim>\<open>NULL\<close>.
\<close>

fun strstr :: "string \<Rightarrow> string \<Rightarrow> nat option" where
  "strstr [] needle = (if needle = [] then Some 0 else None)"
| "strstr (c # cs) needle =
     (if take (length needle) (c # cs) = needle then Some 0
      else map_option Suc (strstr cs needle))"

text \<open>The message is a non-NULL C string.\<close>

definition device_process_incoming_message :: "string \<Rightarrow> globals \<Rightarrow> int \<times> globals" where
  "device_process_incoming_message message s =
     (if strstr message ''ai_response'' \<noteq> None then
        (let s1 = snd (device_set_state DEVICE_STATE_PLAYING s);
             s2 = delay_ms 2000 s1;
             s3 = snd (device_set_state DEVICE_STATE_IDLE s2)
         in (ARUNIKA_OK, s3))
      else (ARUNIKA_OK, s))"

section \<open>Main loop (src/main.c)\<close>

text \<open>
  One pass through the body of \<^verbatim>\<open>while (1)\<close>. \<open>now\<close> is the clock reading of this
  pass, \<open>device_config\<close> the local of \<^verbatim>\<open>main\<close>. \<^verbatim>\<open>sequence++\<close> on a C \<^verbatim>\<open>int\<close> is
  addition on the 32-bit word.
\<close>

definition main_loop_body :: "32 word \<Rightarrow> device_config_t \<Rightarrow> globals \<Rightarrow> globals" where
  "main_loop_body now device_config s =
     (let message_buffer = [];
          s1 = (if websocket_is_connected s then
                  (if websocket_receive_message (Some message_buffer) 1024 s > 0
                   then snd (device_process_incoming_message message_buffer s)
                   else s)
                else
                  (let ws_path = take 127 (''/ws?device_id='' @ c_str (device_id device_config))
                   in snd (websocket_connect (Some (server_url device_config))
                             (server_port device_config) (Some ws_path) s)));
          s2 = (if device_get_state s1 = DEVICE_STATE_RECORDING then
                  (let (r, buffer) = audio_read_buffer (Some uninitialized_buffer) s1 in
                   if r = ARUNIKA_OK then
                     snd (websocket_send_audio_chunk buffer (sequence s1)
                            (s1\<lparr>sequence := sequence s1 + 1\<rparr>))
                   else s1)
                else s1);
          s3 = snd (power_get_battery_level now s2)
      in delay_ms 10 s3)"

text \<open>
  The loop has no exit. It is run on the clock readings of its passes, one per pass;
  \<open>None\<close> says that the program has not returned when the readings are used up.
\<close>

fun main_loop :: "32 word list \<Rightarrow> device_config_t \<Rightarrow> globals \<Rightarrow> int option \<times> globals" where
  "main_loop [] device_config s = (None, s)"
| "main_loop (now # clock) device_config s =
     main_loop clock device_config (main_loop_body now device_config s)"

definition main_with :: "drivers \<Rightarrow> 32 word list \<Rightarrow> globals \<Rightarrow> int option \<times> globals" where
  "main_with d clock s =
     (let (r, s1) = device_init_with d s in
      if r \<noteq> ARUNIKA_OK then (Some (- 1), s1)
      else
        let device_config =
              (case snd (drv_config_load d (Some uninitialized_config) s1) of
                 Some c \<Rightarrow> c
               | None \<Rightarrow> uninitialized_config);
            (w, s2) = drv_network_connect_wifi d (Some (wifi_ssid device_config))
                        (Some (wifi_password device_config)) s1
        in if w \<noteq> ARUNIKA_OK then (Some (- 1), s2)
           else main_loop clock device_config s2)"

definition main :: "32 word list \<Rightarrow> globals \<Rightarrow> int option \<times> globals" where
  "main = main_with firmware"

section \<open>Executions\<close>

text \<open>The globals as the static initialisers leave them when the program starts.\<close>

definition boot_globals :: globals where
  "boot_globals =
     \<lparr>current_state = DEVICE_STATE_INIT,
      websocket_connected = False,
      audio_initialized = False,
      is_recording = False,
      network_initialized = False,
      wifi_connected = False,
      power_initialized = False,
      battery_level = 85,
      last_check = 0,
      default_config = initial_default_config,
      sequence = 0,
      trace = []\<rparr>"

text \<open>
  An execution of the controller is a sequence of calls of \<^verbatim>\<open>device_init\<close>,
  \<^verbatim>\<open>device_handle_button_press\<close>, \<^verbatim>\<open>device_process_incoming_message\<close> and passes of the
  main loop, from \<open>boot_globals\<close>.
\<close>

datatype op =
    DeviceInit
  | ButtonPress
  | IncomingMessage string
  | MainLoopStep "32 word" device_config_t

fun apply_op :: "op \<Rightarrow> globals \<Rightarrow> globals" where
  "apply_op DeviceInit s = snd (device_init s)"
| "apply_op ButtonPress s = snd (device_handle_button_press s)"
| "apply_op (IncomingMessage m) s = snd (device_process_incoming_message m s)"
| "apply_op (MainLoopStep now cfg) s = main_loop_body now cfg s"

fun run :: "op list \<Rightarrow> globals \<Rightarrow> globals" where
  "run [] s = s"
| "run (x # xs) s = run xs (apply_op x s)"

text \<open>
  The sequence numbers passed to \<^verbatim>\<open>websocket_send_audio_chunk\<close>, in the order of the
  calls, read off a trace.
\<close>

fun sent_sequence :: "event list \<Rightarrow> 32 word list" where
  "sent_sequence [] = []"
| "sent_sequence (SendAudioChunk seq r # es) = seq # sent_sequence es"
| "sent_sequence (e # es) = sent_sequence es"

section \<open>Base64 as the standard defines it\<close>

text \<open>
  The encoding the specification names: the standard alphabet \<^verbatim>\<open>A-Z a-z 0-9 + /\<close> by
  position, three octets read as one 24-bit number and cut into four 6-bit values, a last
  group of one or two octets filled up with zero bits and closed with \<^verbatim>\<open>==\<close> or \<^verbatim>\<open>=\<close>.
\<close>

definition base64_alphabet :: "nat \<Rightarrow> char" where
  "base64_alphabet v =
     (if v < 26 then char_of (of_char (CHR ''A'') + v)
      else if v < 52 then char_of (of_char (CHR ''a'') + (v - 26))
      else if v < 62 then char_of (of_char (CHR ''0'') + (v - 52))
      else if v = 62 then CHR ''+''
      else CHR ''/'')"

definition sextets :: "nat \<Rightarrow> nat \<Rightarrow> nat \<Rightarrow> nat list" where
  "sextets a b c =
     (let g = a * 65536 + b * 256 + c
      in [g div 262144, g div 4096 mod 64, g div 64 mod 64, g mod 64])"

fun spec_base64 :: "8 word list \<Rightarrow> string" where
  "spec_base64 [] = []"
| "spec_base64 [a] = map base64_alphabet (take 2 (sextets (unat a) 0 0)) @ ''==''"
| "spec_base64 [a, b] = map base64_alphabet (take 3 (sextets (unat a) (unat b) 0)) @ ''=''"
| "spec_base64 (a # b # c # xs) =
     map base64_alphabet (sextets (unat a) (unat b) (unat c)) @ spec_base64 xs"

text \<open>
  For the proofs: the four characters one pass of the loop writes for a 24-bit group,
  the group of three octets, and what the loop has written when it ends.
\<close>

definition quad :: "32 word \<Rightarrow> string" where
  "quad triple =
     [base64_table ! unat (drop_bit 18 triple AND 0x3F),
      base64_table ! unat (drop_bit 12 triple AND 0x3F),
      base64_table ! unat (drop_bit 6 triple AND 0x3F),
      base64_table ! unat (triple AND 0x3F)]"

definition triple_of :: "8 word \<Rightarrow> 8 word \<Rightarrow> 8 word \<Rightarrow> 32 word" where
  "triple_of a b c = push_bit 16 (ucast a) + push_bit 8 (ucast b) + ucast c"

fun raw_encode :: "8 word list \<Rightarrow> string" where
  "raw_encode [] = []"
| "raw_encode [a] = quad (triple_of a 0 0)"
| "raw_encode [a, b] = quad (triple_of a b 0)"
| "raw_encode (a # b # c # xs) = quad (triple_of a b c) @ raw_encode xs"

text \<open>
  Two invariants of executions. \<open>capture_inv\<close>: in the state Recording the audio
  subsystem is initialised and capturing. \<open>numbered\<close>: the sequence numbers passed so
  far are 0, 1, 2, ... and \<^verbatim>\<open>sequence\<close> holds the next one.
\<close>

definition capture_inv :: "globals \<Rightarrow> bool" where
  "capture_inv s =
     (current_state s = DEVICE_STATE_RECORDING \<longrightarrow> is_recording s \<and> audio_initialized s)"

definition numbered :: "globals \<Rightarrow> bool" where
  "numbered s =
     (sent_sequence (trace s) = map word_of_nat [0..<length (sent_sequence (trace s))] \<and>
      sequence s = word_of_nat (length (sent_sequence (trace s))))"

text \<open>
  An execution with two recordings: boot, a pass of the loop that connects the channel,
  a press, two passes, a press, the answer of the server, a press, one pass, a press.
\<close>

definition two_recordings :: "op list" where
  "two_recordings =
     [DeviceInit, MainLoopStep 0 initial_default_config,
      ButtonPress, MainLoopStep 10 initial_default_config, MainLoopStep 20 initial_default_config,
      ButtonPress, IncomingMessage ''{\"type\":\"ai_response\"}'',
      ButtonPress, MainLoopStep 30 initial_default_config, ButtonPress]"

section \<open>Lemmas\<close>

subsection \<open>What each operation does to the globals\<close>

lemmas device_defs = device_init_def device_init_with_def firmware_def config_load_def audio_init_def
  network_init_def power_init_def device_set_state_def emit_def device_handle_button_press_def
  audio_start_recording_def audio_stop_recording_def device_process_incoming_message_def delay_ms_def

lemmas loop_defs = main_loop_body_def websocket_is_connected_def websocket_receive_message_def
  websocket_connect_def device_get_state_def audio_read_buffer_def websocket_send_audio_chunk_def
  power_get_battery_level_def delay_ms_def emit_def

lemmas run_defs = device_defs loop_defs boot_globals_def two_recordings_def

lemma device_init_eq:
  "device_init s =
     (ARUNIKA_OK,
      s\<lparr>audio_initialized := True, network_initialized := True, power_initialized := True,
        trace := trace s @ [StateTransition (current_state s) DEVICE_STATE_IDLE],
        current_state := DEVICE_STATE_IDLE\<rparr>)"
  by (simp add: device_defs)

lemma button_press_fields:
  "current_state (snd (device_handle_button_press s)) =
     (if current_state s = DEVICE_STATE_IDLE \<and> audio_initialized s then DEVICE_STATE_RECORDING
      else if current_state s = DEVICE_STATE_RECORDING then DEVICE_STATE_PROCESSING
      else current_state s)"
  "is_recording (snd (device_handle_button_press s)) =
     (if current_state s = DEVICE_STATE_IDLE \<and> audio_initialized s then True
      else if current_state s = DEVICE_STATE_RECORDING then False
      else is_recording s)"
  "audio_initialized (snd (device_handle_button_press s)) = audio_initialized s"
  "websocket_connected (snd (device_handle_button_press s)) = websocket_connected s"
  "sequence (snd (device_handle_button_press s)) = sequence s"
  by (simp_all add: device_defs split: device_state_t.split)

lemma incoming_fields:
  "current_state (snd (device_process_incoming_message m s)) =
     (if strstr m ''ai_response'' \<noteq> None then DEVICE_STATE_IDLE else current_state s)"
  "is_recording (snd (device_process_incoming_message m s)) = is_recording s"
  "audio_initialized (snd (device_process_incoming_message m s)) = audio_initialized s"
  "sequence (snd (device_process_incoming_message m s)) = sequence s"
  by (simp_all add: device_defs Let_def)

lemma main_loop_body_fields:
  "current_state (main_loop_body now cfg s) = current_state s"
  "is_recording (main_loop_body now cfg s) = is_recording s"
  "audio_initialized (main_loop_body now cfg s) = audio_initialized s"
  by (simp_all add: loop_defs Let_def split: prod.split)

lemma capture_inv_step: "capture_inv s \<Longrightarrow> capture_inv (apply_op x s)"
  by (cases x) (simp_all add: capture_inv_def device_init_eq button_press_fields incoming_fields main_loop_body_fields)

lemma capture_inv_run: "capture_inv s \<Longrightarrow> capture_inv (run xs s)"
  by (induction xs arbitrary: s) (simp_all add: capture_inv_step)

lemma audio_initialized_step: "audio_initialized s \<Longrightarrow> audio_initialized (apply_op x s)"
  by (cases x) (simp_all add: device_init_eq button_press_fields incoming_fields main_loop_body_fields)

lemma audio_initialized_run: "audio_initialized s \<Longrightarrow> audio_initialized (run xs s)"
  by (induction xs arbitrary: s) (simp_all add: audio_initialized_step)

lemma main_loop_body_connected: "websocket_connected (main_loop_body now cfg s)"
  by (simp add: loop_defs Let_def split: prod.split)

lemma main_loop_body_wifi: "wifi_connected (main_loop_body now cfg s) = wifi_connected s"
  by (simp add: loop_defs Let_def split: prod.split)

lemma main_loop_none: "fst (main_loop clock cfg s) = None"
  by (induction clock arbitrary: s) simp_all

lemma main_loop_fields:
  "current_state (snd (main_loop clock cfg s)) = current_state s"
  "wifi_connected (snd (main_loop clock cfg s)) = wifi_connected s"
  by (induction clock arbitrary: s) (simp_all add: main_loop_body_fields main_loop_body_wifi)

lemma main_loop_connected:
  "websocket_connected s \<Longrightarrow> websocket_connected (snd (main_loop clock cfg s))"
  by (induction clock arbitrary: s) (simp_all add: main_loop_body_connected)

lemma main_eq:
  "main clock s =
     main_loop clock (default_config s)
       ((delay_ms 2000 (snd (device_init s)))\<lparr>wifi_connected := True\<rparr>)"
proof -
  have d: "device_init_with firmware s = device_init s"
    by (simp only: device_init_def)
  show ?thesis
    unfolding main_def main_with_def d
    by (simp add: device_init_eq firmware_def config_load_def network_connect_wifi_def
        delay_ms_def emit_def)
qed

lemma main_never_returns: "fst (main clock s) = None"
  by (simp add: main_eq main_loop_none)

subsection \<open>Searching a message\<close>

lemma strstr_None_iff:
  "strstr hay needle = None \<longleftrightarrow> (\<forall>ps ss. hay \<noteq> ps @ needle @ ss)"
proof (induction hay)
  case Nil
  then show ?case by simp
next
  case (Cons c cs)
  show ?case
  proof (cases "take (length needle) (c # cs) = needle")
    case True
    then have "c # cs = [] @ needle @ drop (length needle) (c # cs)"
      by (metis append_Nil append_take_drop_id)
    with True show ?thesis by (simp del: append_Nil) blast
  next
    case False
    have "(\<forall>ps ss. c # cs \<noteq> ps @ needle @ ss) \<longleftrightarrow> (\<forall>ps ss. cs \<noteq> ps @ needle @ ss)"
    proof
      assume a: "\<forall>ps ss. c # cs \<noteq> ps @ needle @ ss"
      show "\<forall>ps ss. cs \<noteq> ps @ needle @ ss"
      proof (intro allI notI)
        fix ps ss assume "cs = ps @ needle @ ss"
        then have "c # cs = (c # ps) @ needle @ ss" by simp
        with a show False by blast
      qed
    next
      assume a: "\<forall>ps ss. cs \<noteq> ps @ needle @ ss"
      show "\<forall>ps ss. c # cs \<noteq> ps @ needle @ ss"
      proof (intro allI notI)
        fix ps ss assume e: "c # cs = ps @ needle @ ss"
        show False
        proof (cases ps)
          case Nil
          with e have "take (length needle) (c # cs) = needle" by simp
          with False show False by simp
        next
          case (Cons p ps')
          with e have "cs = ps' @ needle @ ss" by simp
          with a show False by blast
        qed
      qed
    qed
    with False Cons.IH show ?thesis by simp
  qed
qed

subsection \<open>Numbering of the chunks\<close>

lemma sent_sequence_append: "sent_sequence (es @ fs) = sent_sequence es @ sent_sequence fs"
  by (induction es rule: sent_sequence.induct) simp_all

lemma numbered_quiet:
  "numbered s \<Longrightarrow> sequence s' = sequence s \<Longrightarrow> sent_sequence (trace s') = sent_sequence (trace s) \<Longrightarrow>
   numbered s'"
  by (simp add: numbered_def)

lemma numbered_send:
  "numbered s \<Longrightarrow> sequence s' = sequence s + 1 \<Longrightarrow>
   sent_sequence (trace s') = sent_sequence (trace s) @ [sequence s] \<Longrightarrow> numbered s'"
  by (simp add: numbered_def)

lemma device_init_sent:
  "sequence (snd (device_init s)) = sequence s"
  "sent_sequence (trace (snd (device_init s))) = sent_sequence (trace s)"
  by (simp_all add: device_init_eq sent_sequence_append)

lemma button_press_sent:
  "sent_sequence (trace (snd (device_handle_button_press s))) = sent_sequence (trace s)"
  by (simp add: device_defs sent_sequence_append split: device_state_t.split)

lemma incoming_sent:
  "sent_sequence (trace (snd (device_process_incoming_message m s))) = sent_sequence (trace s)"
  by (simp add: device_defs Let_def sent_sequence_append)

lemma main_loop_body_sent:
  "sequence (main_loop_body now cfg s) =
     (if current_state s = DEVICE_STATE_RECORDING \<and> is_recording s then sequence s + 1 else sequence s)"
  "sent_sequence (trace (main_loop_body now cfg s)) =
     (if current_state s = DEVICE_STATE_RECORDING \<and> is_recording s
      then sent_sequence (trace s) @ [sequence s] else sent_sequence (trace s))"
  by (simp_all add: loop_defs Let_def sent_sequence_append split: prod.split)

lemma numbered_step: "numbered s \<Longrightarrow> numbered (apply_op x s)"
proof (cases x)
  case DeviceInit
  assume "numbered s"
  then show ?thesis
    unfolding DeviceInit by (simp add: numbered_quiet [of s] device_init_sent)
next
  case ButtonPress
  assume "numbered s"
  then show ?thesis
    unfolding ButtonPress by (simp add: numbered_quiet [of s] button_press_sent button_press_fields)
next
  case (IncomingMessage m)
  assume "numbered s"
  then show ?thesis
    unfolding IncomingMessage by (simp add: numbered_quiet [of s] incoming_sent incoming_fields)
next
  case (MainLoopStep now cfg)
  assume n: "numbered s"
  show ?thesis
  proof (cases "current_state s = DEVICE_STATE_RECORDING \<and> is_recording s")
    case True
    then show ?thesis
      unfolding MainLoopStep using n by (simp add: numbered_send [of s] main_loop_body_sent)
  next
    case False
    then show ?thesis
      unfolding MainLoopStep using n by (simp add: numbered_quiet [of s] main_loop_body_sent)
  qed
qed

lemma numbered_run: "numbered s \<Longrightarrow> numbered (run xs s)"
  by (induction xs arbitrary: s) (simp_all add: numbered_step)

lemma numbered_boot: "numbered boot_globals"
  by (simp add: numbered_def boot_globals_def)

lemma sint_small: "i < 2 ^ 31 \<Longrightarrow> sint (word_of_nat i :: 32 word) = int i"
proof -
  assume "i < 2 ^ 31"
  then have "int i < 2 ^ 31" by (metis of_nat_less_iff of_nat_numeral of_nat_power)
  then show ?thesis
    by (simp add: signed_of_nat signed_take_bit_int_eq_self)
qed

subsection \<open>The encoder loop computes the standard encoding\<close>

lemma table_alphabet: "map base64_alphabet [0..<64] = base64_table"
  by code_simp

lemma table_nth: "v < 64 \<Longrightarrow> base64_table ! v = base64_alphabet v"
proof -
  assume "v < 64"
  then have "map base64_alphabet [0..<64] ! v = base64_alphabet v"
    by (simp del: upt_Suc)  
  then show ?thesis by (simp only: table_alphabet)
qed


lemma unat_ucast_8_32: "unat (ucast (a :: 8 word) :: 32 word) = unat a"
proof -
  have "unat a < 2 ^ 8" using unsigned_less [of a, where 'a = nat] by simp
  then have "unat a < 2 ^ 32" by simp
  then show ?thesis by (simp add: unsigned_ucast_eq take_bit_nat_eq_self)
qed

lemma unat_push_ucast: "n \<le> 16 \<Longrightarrow> unat (push_bit n (ucast (a :: 8 word) :: 32 word)) = unat a * 2 ^ n"
proof -
  assume n: "n \<le> 16"
  have a: "unat a < 2 ^ 8" using unsigned_less [of a, where 'a = nat] by simp
  have "unat a * 2 ^ n < 2 ^ 8 * 2 ^ n" using a by simp
  also have "\<dots> = 2 ^ (8 + n)" by (simp add: power_add)
  also have "\<dots> \<le> (2 :: nat) ^ 24" using n by (intro power_increasing) simp_all
  finally have "unat a * 2 ^ n < 2 ^ 32" by simp
  then show ?thesis
    unfolding unsigned_push_bit_eq unat_ucast_8_32
    by (simp add: push_bit_eq_mult take_bit_nat_eq_self)
qed

lemma unat_triple_of: "unat (triple_of a b c) = unat a * 65536 + unat b * 256 + unat c"
proof -
  have a: "unat a < 256" using unsigned_less [of a, where 'a = nat] by simp
  have b: "unat b < 256" using unsigned_less [of b, where 'a = nat] by simp
  have c: "unat c < 256" using unsigned_less [of c, where 'a = nat] by simp
  have pa: "unat (push_bit 16 (ucast a :: 32 word)) = unat a * 65536"
    using unat_push_ucast [of 16 a] by simp
  have pb: "unat (push_bit 8 (ucast b :: 32 word)) = unat b * 256"
    using unat_push_ucast [of 8 b] by simp
  have "unat (push_bit 16 (ucast a :: 32 word)) + unat (push_bit 8 (ucast b :: 32 word)) < 2 ^ LENGTH(32)"
    unfolding pa pb using a b by simp
  then have ab: "unat (push_bit 16 (ucast a :: 32 word) + push_bit 8 (ucast b))
      = unat a * 65536 + unat b * 256"
    unfolding unat_add_lem by (simp only: pa pb)
  have "unat (push_bit 16 (ucast a :: 32 word) + push_bit 8 (ucast b)) + unat (ucast c :: 32 word) < 2 ^ LENGTH(32)"
    unfolding ab unat_ucast_8_32 using a b c by simp
  then have "unat (push_bit 16 (ucast a :: 32 word) + push_bit 8 (ucast b) + ucast c)
      = unat a * 65536 + unat b * 256 + unat c"
    unfolding unat_add_lem by (simp only: ab unat_ucast_8_32)
  then show ?thesis
    by (simp only: triple_of_def)
qed

lemma unat_sextet: "unat (drop_bit n t AND (0x3F :: 32 word)) = unat t div 2 ^ n mod 64"
proof -
  have "(0x3F :: 32 word) = mask 6" by (simp add: mask_eq_exp_minus_1)
  then have "drop_bit n t AND (0x3F :: 32 word) = take_bit 6 (drop_bit n t)"
    by (simp add: take_bit_eq_mask)
  then have "unat (drop_bit n t AND (0x3F :: 32 word)) = take_bit 6 (drop_bit n (unat t))"
    by (simp only: unsigned_take_bit_eq unat_drop_bit_eq)
  then show ?thesis
    by (simp add: take_bit_eq_mod drop_bit_eq_div)
qed

lemma quad_triple_of:
  "quad (triple_of a b c) = map base64_alphabet (sextets (unat a) (unat b) (unat c))"
proof -
  let ?g = "unat a * 65536 + unat b * 256 + unat c"
  have a: "unat a < 256" using unsigned_less [of a, where 'a = nat] by simp
  have b: "unat b < 256" using unsigned_less [of b, where 'a = nat] by simp
  have c: "unat c < 256" using unsigned_less [of c, where 'a = nat] by simp
  have g: "?g < 16777216" using a b c by simp
  have top: "?g div 262144 < 64" using g by simp
  have "unat (triple_of a b c AND 0x3F) = ?g mod 64"
    using unat_sextet [of 0 "triple_of a b c"] by (simp add: unat_triple_of)
  moreover have "unat (drop_bit 6 (triple_of a b c) AND 0x3F) = ?g div 64 mod 64"
    using unat_sextet [of 6 "triple_of a b c"] by (simp add: unat_triple_of)
  moreover have "unat (drop_bit 12 (triple_of a b c) AND 0x3F) = ?g div 4096 mod 64"
    using unat_sextet [of 12 "triple_of a b c"] by (simp add: unat_triple_of)
  moreover have "unat (drop_bit 18 (triple_of a b c) AND 0x3F) = ?g div 262144"
    using unat_sextet [of 18 "triple_of a b c"] top by (simp add: unat_triple_of)
  ultimately show ?thesis
    using top by (simp add: quad_def sextets_def table_nth Let_def)
qed


lemma length_quad: "length (quad t) = 4"
  by (simp add: quad_def)

lemma length_raw_encode: "length (raw_encode xs) = 4 * ((length xs + 2) div 3)"
  by (induction xs rule: raw_encode.induct) (simp_all add: length_quad, arith)

lemma update4:
  "j + 4 \<le> length out \<Longrightarrow>
   out[j := a, j + 1 := b, j + 2 := c, j + 3 := d] = take j out @ [a, b, c, d] @ drop (j + 4) out"
  by (auto simp: list_eq_iff_nth_eq nth_append nth_list_update min_def)


lemma quad_nths: "[quad t ! 0, quad t ! 1, quad t ! 2, quad t ! 3] = quad t"
  by (simp add: quad_def)

lemma loop_step:
  assumes "i < length input" and "j + 4 \<le> length output"
  shows "base64_encode_loop input i j output =
     base64_encode_loop input
       (if i + 2 < length input then i + 3 else if i + 1 < length input then i + 2 else i + 1)
       (j + 4)
       (take j output @
        quad (triple_of (input ! i)
                  (if i + 1 < length input then input ! (i + 1) else 0)
                  (if i + 2 < length input then input ! (i + 2) else 0)) @
        drop (j + 4) output)"
proof -
  let ?q = "quad (triple_of (input ! i)
                  (if i + 1 < length input then input ! (i + 1) else 0)
                  (if i + 2 < length input then input ! (i + 2) else 0))"
  have "base64_encode_loop input i j output =
     base64_encode_loop input
       (if i + 2 < length input then i + 3 else if i + 1 < length input then i + 2 else i + 1)
       (j + 4)
       (output[j := ?q ! 0, j + 1 := ?q ! 1, j + 2 := ?q ! 2, j + 3 := ?q ! 3])"
    using assms(1)
    by (subst base64_encode_loop.simps) (auto simp: Let_def quad_def triple_of_def numeral_3_eq_3)
  also have "output[j := ?q ! 0, j + 1 := ?q ! 1, j + 2 := ?q ! 2, j + 3 := ?q ! 3]
      = take j output @ [?q ! 0, ?q ! 1, ?q ! 2, ?q ! 3] @ drop (j + 4) output"
    using assms(2) by (rule update4)
  finally show ?thesis
    by (simp only: quad_nths)
qed

lemma loop_correct:
  "i \<le> length inp \<Longrightarrow> j + 4 * ((length inp - i + 2) div 3) \<le> length out \<Longrightarrow>
   base64_encode_loop inp i j out =
     take j out @ raw_encode (drop i inp) @ drop (j + 4 * ((length inp - i + 2) div 3)) out"
proof (induction "length inp - i" arbitrary: i j out rule: less_induct)
  case less
  let ?n = "length inp"
  consider (stop) "i = ?n" | (one) "Suc i = ?n" | (two) "Suc (Suc i) = ?n" | (more) "Suc (Suc i) < ?n"
    using less.prems(1) by linarith
  then show ?case
  proof cases
    case stop
    then show ?thesis
      by (subst base64_encode_loop.simps) simp
  next
    case one
    then have len: "length inp = Suc i" by simp
    have d: "drop i inp = [inp ! i]"
      using Cons_nth_drop_Suc [of i inp] by (simp add: len)
    have j4: "j + 4 \<le> length out" using less.prems(2) by (simp add: len)
    let ?out = "take j out @ quad (triple_of (inp ! i) 0 0) @ drop (j + 4) out"
    have "base64_encode_loop inp i j out = base64_encode_loop inp (Suc i) (j + 4) ?out"
      using loop_step [of i inp j out] j4 by (simp add: len)
    also have "\<dots> = ?out"
      by (subst base64_encode_loop.simps) (simp add: len)
    finally show ?thesis
      by (simp add: len d)
  next
    case two
    then have len: "length inp = Suc (Suc i)" by simp
    have d: "drop i inp = [inp ! i, inp ! Suc i]"
      using Cons_nth_drop_Suc [of i inp] Cons_nth_drop_Suc [of "Suc i" inp] by (simp add: len)
    have j4: "j + 4 \<le> length out" using less.prems(2) by (simp add: len)
    let ?out = "take j out @ quad (triple_of (inp ! i) (inp ! Suc i) 0) @ drop (j + 4) out"
    have "base64_encode_loop inp i j out = base64_encode_loop inp (Suc (Suc i)) (j + 4) ?out"
      using loop_step [of i inp j out] j4 by (simp add: len)
    also have "\<dots> = ?out"
      by (subst base64_encode_loop.simps) (simp add: len)
    finally show ?thesis
      by (simp add: len d)
  next
    case more
    then have d: "drop i inp = inp ! i # inp ! Suc i # inp ! Suc (Suc i) # drop (i + 3) inp"
      by (simp add: Cons_nth_drop_Suc Suc_lessD numeral_3_eq_3)
    have "?n - i + 2 = (?n - (i + 3) + 2) + 3"
      using more by simp
    then have "(?n - i + 2) div 3 = Suc ((?n - (i + 3) + 2) div 3)"
      by (simp only: div_add_self2)
    then have ar: "4 * ((?n - i + 2) div 3) = 4 + 4 * ((?n - (i + 3) + 2) div 3)"
      by simp
    have j4: "j + 4 \<le> length out" using less.prems(2) ar by simp
    let ?q = "quad (triple_of (inp ! i) (inp ! Suc i) (inp ! Suc (Suc i)))"
    let ?out = "take j out @ ?q @ drop (j + 4) out"
    have lo: "length ?out = length out" using j4 by (simp add: length_quad)
    have "base64_encode_loop inp i j out = base64_encode_loop inp (i + 3) (j + 4) ?out"
      using loop_step [of i inp j out] j4 more by simp
    also have "\<dots> = take (j + 4) ?out @ raw_encode (drop (i + 3) inp) @
          drop (j + 4 + 4 * ((?n - (i + 3) + 2) div 3)) ?out"
      using more less.prems(2) ar lo by (intro less.hyps) simp_all
    also have "take (j + 4) ?out = take j out @ ?q"
      using j4 by (simp add: length_quad)
    also have "drop (j + 4 + 4 * ((?n - (i + 3) + 2) div 3)) ?out
        = drop (j + 4 * ((?n - i + 2) div 3)) out"
    proof -
      have "drop (j + 4 + k) ?out = drop (j + 4 + k) out" for k
        using j4 by (simp add: length_quad add.commute)
      then show ?thesis
        by (simp only: ar add.assoc)
    qed
    finally show ?thesis
      by (simp add: d)
  qed
qed


lemma length_spec_base64: "length (spec_base64 xs) = 4 * ((length xs + 2) div 3)"
  by (induction xs rule: spec_base64.induct) (simp_all add: sextets_def Let_def, arith)

lemma padding_shift:
  "length q = 4 \<Longrightarrow> k \<le> e \<Longrightarrow>
   fold (\<lambda>i out. out[4 + e - 1 - i := c]) [0..<k] (q @ ys) =
   q @ fold (\<lambda>i out. out[e - 1 - i := c]) [0..<k] ys"
proof (induction k)
  case 0
  then show ?case by simp
next
  case (Suc k)
  then have "4 + e - 1 - k - 4 = e - 1 - k" and "\<not> 4 + e - 1 - k < 4"
    by simp_all
  with Suc show ?case
    by (simp add: list_update_append)
qed

lemma padding_count: "(3 - n mod 3) mod 3 \<le> (2 :: nat)"
  by arith

lemma padding_spec:
  "x \<noteq> [] \<Longrightarrow>
   base64_add_padding (length x) (4 * ((length x + 2) div 3)) (raw_encode x @ rest) =
   spec_base64 x @ rest"
proof (induction x rule: spec_base64.induct)
  case 1
  then show ?case by simp
next
  case (2 a)
  have "[0..<2] = [0, Suc 0]" by (simp add: upt_rec)
  then show ?case
    by (simp add: base64_add_padding_def quad_triple_of sextets_def Let_def)
next
  case (3 a b)
  then show ?case
    by (simp add: base64_add_padding_def quad_triple_of sextets_def Let_def)
next
  case (4 a b c xs)
  show ?case
  proof (cases "xs = []")
    case True
    then show ?thesis
      by (simp add: base64_add_padding_def quad_triple_of)
  next
    case False
    let ?e = "4 * ((length xs + 2) div 3)"
    let ?k = "(3 - length xs mod 3) mod 3"
    have len: "4 * ((length (a # b # c # xs) + 2) div 3) = 4 + ?e"
      by (simp, arith)
    have k: "(3 - length (a # b # c # xs) mod 3) mod 3 = ?k"
      by simp
    have "0 < length xs" using False by simp
    then have "4 \<le> ?e" by arith
    then have ke: "?k \<le> ?e" using padding_count [of "length xs"] by linarith
    have "base64_add_padding (length (a # b # c # xs)) (4 * ((length (a # b # c # xs) + 2) div 3))
            (raw_encode (a # b # c # xs) @ rest) =
          fold (\<lambda>i out. out[4 + ?e - 1 - i := CHR ''='']) [0..<?k]
            (quad (triple_of a b c) @ (raw_encode xs @ rest))"
      unfolding base64_add_padding_def len k by simp
    also have "\<dots> = quad (triple_of a b c) @
          fold (\<lambda>i out. out[?e - 1 - i := CHR ''='']) [0..<?k] (raw_encode xs @ rest)"
      using ke by (intro padding_shift) (simp_all add: length_quad)
    also have "fold (\<lambda>i out. out[?e - 1 - i := CHR ''='']) [0..<?k] (raw_encode xs @ rest) =
          spec_base64 xs @ rest"
      using "4.IH" [OF False] by (simp only: base64_add_padding_def)
    finally show ?thesis
      by (simp add: quad_triple_of)
  qed
qed

lemma alphabet_in_table: "base64_alphabet v \<in> set base64_table"
proof (cases "v < 64")
  case True
  then have "base64_table ! v \<in> set base64_table"
    by (intro nth_mem) (simp add: base64_table_def)
  then show ?thesis using True by (simp add: table_nth)
next
  case False
  then show ?thesis by (simp add: base64_alphabet_def base64_table_def)
qed

lemma set_spec_base64: "set (spec_base64 xs) \<subseteq> set base64_table \<union> {CHR ''=''}"
  by (induction xs rule: spec_base64.induct) (auto simp: sextets_def Let_def alphabet_in_table)

lemma spec_base64_no_nul: "CHR 0x00 \<notin> set (spec_base64 xs)"
proof -
  have "CHR 0x00 \<notin> set base64_table \<union> {CHR ''=''}"
    by (simp add: base64_table_def)
  then show ?thesis using set_spec_base64 [of xs] by blast
qed

lemma int_of_size_t_small: "n < 2 ^ 31 \<Longrightarrow> int_of_size_t n = int n"
proof -
  assume "n < 2 ^ 31"
  then have "int n < 2 ^ 31" by (metis of_nat_less_iff of_nat_numeral of_nat_power)
  then show ?thesis
    by (simp add: int_of_size_t_def signed_of_nat signed_take_bit_int_eq_self)
qed

lemma ceiling_thirds: "\<lceil>real n / 3\<rceil> = int ((n + 2) div 3)"
proof -
  have "\<lceil>real n / 3\<rceil> = \<lceil>of_int (int n) / (of_int 3 :: real)\<rceil>" by simp
  also have "\<dots> = - (- int n div 3)" by (rule ceiling_divide_eq_div)
  also have "\<dots> = int ((n + 2) div 3)" by (simp add: zdiv_int)
  finally show ?thesis .
qed

lemma base64_encode_output:
  assumes "x \<noteq> []" and "4 * ((length x + 2) div 3) < length buf"
  shows "base64_encode (Some x) (Some buf) =
           (int_of_size_t (4 * ((length x + 2) div 3)),
            Some (spec_base64 x @ CHR 0x00 # drop (4 * ((length x + 2) div 3) + 1) buf))"
proof -
  let ?e = "4 * ((length x + 2) div 3)"
  have loop: "base64_encode_loop x 0 0 buf = raw_encode x @ drop ?e buf"
    using loop_correct [of 0 x 0 buf] assms(2) by simp
  have pad: "base64_add_padding (length x) ?e (raw_encode x @ drop ?e buf) = spec_base64 x @ drop ?e buf"
    using assms(1) by (rule padding_spec)
  have "drop ?e buf = buf ! ?e # drop (Suc ?e) buf"
    using assms(2) by (simp add: Cons_nth_drop_Suc)
  then have nul: "(spec_base64 x @ drop ?e buf)[?e := CHR 0x00] =
      spec_base64 x @ CHR 0x00 # drop (?e + 1) buf"
    by (simp add: list_update_append length_spec_base64)
  have "base64_encode (Some x) (Some buf) =
      (int_of_size_t ?e,
       Some ((base64_add_padding (length x) ?e (base64_encode_loop x 0 0 buf))[?e := CHR 0x00]))"
    using assms by (simp add: base64_encode_def Let_def)
  then show ?thesis
    by (simp only: loop pad nul)
qed

lemma base64_encode_code:
  "fst (base64_encode (Some x) (Some buf)) =
     (if x = [] then ARUNIKA_ERROR_INVALID_PARAM
      else if length buf < 4 * ((length x + 2) div 3) + 1 then ARUNIKA_ERROR_MEMORY
      else int_of_size_t (4 * ((length x + 2) div 3)))"
  by (simp add: base64_encode_def Let_def)

section \<open>Properties\<close>

subsection \<open>C1: Recording and the duplex channel\<close>

text \<open>
  The controller can be in Recording while the channel is down: after \<^verbatim>\<open>device_init\<close>
  a button press moves the device to Recording, and no channel has been connected.
\<close>

theorem recording_without_channel_counterexample:
  "current_state (run [DeviceInit, ButtonPress] boot_globals) = DEVICE_STATE_RECORDING \<and>
   \<not> websocket_is_connected (run [DeviceInit, ButtonPress] boot_globals)"
  by (simp add: run_defs)

text \<open>
  C1, as the code has it. In every execution from the boot state the device is in
  Recording only while the audio subsystem is initialised and capturing. A button press
  in Idle moves the device to Recording exactly when the audio subsystem is initialised,
  and no button press looks at or changes the state of the channel.
\<close>

theorem recording_only_while_capturing:
  "(current_state (run ops boot_globals) = DEVICE_STATE_RECORDING \<longrightarrow>
      is_recording (run ops boot_globals) \<and> audio_initialized (run ops boot_globals)) \<and>
   (current_state s = DEVICE_STATE_IDLE \<longrightarrow>
      (current_state (snd (device_handle_button_press s)) = DEVICE_STATE_RECORDING) = audio_initialized s) \<and>
   websocket_connected (snd (device_handle_button_press s)) = websocket_connected s"
proof -
  have "capture_inv boot_globals"
    by (simp add: capture_inv_def boot_globals_def)
  then have "capture_inv (run ops boot_globals)"
    by (rule capture_inv_run)
  then show ?thesis
    by (simp add: capture_inv_def button_press_fields)
qed

text \<open>
  The execution boot, press: the device is in Recording and capturing, and the channel
  is down.
\<close>

theorem recording_only_while_capturing_witness:
  "current_state (run [DeviceInit, ButtonPress] boot_globals) = DEVICE_STATE_RECORDING \<and>
   is_recording (run [DeviceInit, ButtonPress] boot_globals) \<and>
   audio_initialized (run [DeviceInit, ButtonPress] boot_globals) \<and>
   current_state (snd (device_init boot_globals)) = DEVICE_STATE_IDLE \<and>
   audio_initialized (snd (device_init boot_globals)) \<and>
   current_state (snd (device_handle_button_press (snd (device_init boot_globals)))) = DEVICE_STATE_RECORDING \<and>
   \<not> websocket_connected (snd (device_handle_button_press (snd (device_init boot_globals))))"
  using recording_only_while_capturing [of "[DeviceInit, ButtonPress]" "snd (device_init boot_globals)"]
  by (simp add: run_defs)

subsection \<open>C2: Sequence numbers of the chunks\<close>

text \<open>
  In \<open>two_recordings\<close> the first recording sends the chunks 0 and 1, and the only
  chunk of the second recording is sent with the sequence number 2, not 0.
\<close>

theorem sequence_not_reset_counterexample:
  "trace (run two_recordings boot_globals) =
     [StateTransition DEVICE_STATE_INIT DEVICE_STATE_IDLE, Delay 1000, Delay 10,
      StateTransition DEVICE_STATE_IDLE DEVICE_STATE_RECORDING,
      SendAudioChunk 0 ARUNIKA_OK, Delay 10, SendAudioChunk 1 ARUNIKA_OK, Delay 10,
      StateTransition DEVICE_STATE_RECORDING DEVICE_STATE_PROCESSING,
      StateTransition DEVICE_STATE_PROCESSING DEVICE_STATE_PLAYING, Delay 2000,
      StateTransition DEVICE_STATE_PLAYING DEVICE_STATE_IDLE,
      StateTransition DEVICE_STATE_IDLE DEVICE_STATE_RECORDING,
      SendAudioChunk 2 ARUNIKA_OK, Delay 10,
      StateTransition DEVICE_STATE_RECORDING DEVICE_STATE_PROCESSING]"
  by (simp add: run_defs)

text \<open>
  C2, as the code has it. In every execution from the boot state the sequence numbers
  passed to \<^verbatim>\<open>websocket_send_audio_chunk\<close>, all recordings taken together, are
  0, 1, 2, ... in the order of the calls, as 32-bit values: the call number \<open>i\<close> is given
  \<open>i\<close> itself as long as \<open>i\<close> is below \<open>2 ^ 31\<close>. The static counter holds the number
  of calls made so far, so the first recording starts at 0 and each later recording goes
  on where the one before it stopped.
\<close>

theorem sequence_numbers_run_on:
  "sent_sequence (trace (run ops boot_globals)) =
     map word_of_nat [0..<length (sent_sequence (trace (run ops boot_globals)))] \<and>
   sequence (run ops boot_globals) = word_of_nat (length (sent_sequence (trace (run ops boot_globals)))) \<and>
   (\<forall>i < length (sent_sequence (trace (run ops boot_globals))).
      i < 2 ^ 31 \<longrightarrow> sint (sent_sequence (trace (run ops boot_globals)) ! i) = int i)"
proof -
  let ?sent = "sent_sequence (trace (run ops boot_globals))"
  have n: "numbered (run ops boot_globals)"
    using numbered_boot by (rule numbered_run)
  then have eq: "?sent = map word_of_nat [0..<length ?sent]"
    by (simp add: numbered_def)
  have "sint (?sent ! i) = int i" if "i < length ?sent" and "i < 2 ^ 31" for i
  proof -
    have "?sent ! i = map word_of_nat [0..<length ?sent] ! i" using eq by simp
    also have "\<dots> = word_of_nat i" using that(1) by simp
    finally show ?thesis using that(2) by (simp add: sint_small)
  qed
  with n eq show ?thesis by (simp add: numbered_def)
qed

text \<open>
  In \<open>two_recordings\<close> the three chunks are numbered 0, 1, 2 and the counter is left
  at 3.
\<close>

theorem sequence_numbers_run_on_witness:
  "sent_sequence (trace (run two_recordings boot_globals)) = [0, 1, 2] \<and>
   sequence (run two_recordings boot_globals) = 3 \<and>
   sint (sent_sequence (trace (run two_recordings boot_globals)) ! 2) = 2"
  using sequence_numbers_run_on [of two_recordings]
  by (simp add: run_defs)

subsection \<open>C3: Decoding what the encoder wrote\<close>

text \<open>
  The three bytes of \<^verbatim>\<open>foo\<close> are encoded as \<^verbatim>\<open>Zm9v\<close>; decoding that buffer
  fails with \<^verbatim>\<open>ARUNIKA_ERROR_INIT\<close> and leaves the output buffer as it was.
\<close>

theorem base64_roundtrip_counterexample:
  "base64_encode (Some [0x66, 0x6F, 0x6F]) (Some (replicate 5 (CHR ''x''))) = (4, Some (''Zm9v'' @ [CHR 0x00])) \<and>
   base64_decode (snd (base64_encode (Some [0x66, 0x6F, 0x6F]) (Some (replicate 5 (CHR ''x'')))))
     (Some [0, 0, 0]) = (ARUNIKA_ERROR_INIT, Some [0, 0, 0])"
proof -
  have foo: "spec_base64 [0x66, 0x6F, 0x6F] = ''Zm9v''"
    by (simp add: sextets_def base64_alphabet_def, code_simp)
  have "base64_encode (Some [0x66, 0x6F, 0x6F]) (Some (replicate 5 (CHR ''x''))) = (4, Some (''Zm9v'' @ [CHR 0x00]))"
    using base64_encode_output [of "[0x66, 0x6F, 0x6F]" "replicate 5 (CHR ''x'')", unfolded foo]
    by (simp add: int_of_size_t_small)
  then show ?thesis
    by (simp add: base64_decode_def)
qed

text \<open>
  C3, as the code has it. For every byte sequence \<open>x\<close> and every pair of buffers,
  \<^verbatim>\<open>base64_decode\<close> applied to what \<^verbatim>\<open>base64_encode\<close> left in its output buffer
  returns \<^verbatim>\<open>ARUNIKA_ERROR_INIT\<close> and writes nothing; so it does on every other non-NULL
  input.
\<close>

theorem base64_decode_not_implemented:
  "base64_decode (snd (base64_encode (Some x) (Some buf))) (Some out) = (ARUNIKA_ERROR_INIT, Some out) \<and>
   base64_decode (Some input) (Some out) = (ARUNIKA_ERROR_INIT, Some out)"
proof -
  have "snd (base64_encode (Some x) (Some buf)) \<noteq> None"
    by (simp add: base64_encode_def Let_def)
  then show ?thesis
    by (simp add: base64_decode_def)
qed

subsection \<open>C4: What the encoder writes\<close>

text \<open>
  The empty input is rejected with \<^verbatim>\<open>ARUNIKA_ERROR_INVALID_PARAM\<close> and the output
  buffer is not written. An input of 1610612736 bytes has an encoded length of
  \<open>2 ^ 31\<close>, which the \<^verbatim>\<open>int\<close> returned shows as a negative number.
\<close>

theorem base64_encode_empty_counterexample:
  "base64_encode (Some []) (Some ''xxxxx'') = (ARUNIKA_ERROR_INVALID_PARAM, Some ''xxxxx'') \<and>
   fst (base64_encode (Some (replicate 1610612736 0)) (Some (replicate 2147483649 (CHR 0x00)))) < 0"
proof -
  let ?x = "replicate 1610612736 (0 :: 8 word)"
  let ?buf = "replicate 2147483649 (CHR 0x00)"
  have big: "int_of_size_t 2147483648 = - 2147483648"
    by (simp add: int_of_size_t_def)
  have x: "?x \<noteq> []"
    by (metis length_replicate list.size(3) zero_neq_numeral)
  have len: "4 * ((length ?x + 2) div 3) = 2147483648" "length ?buf = 2147483649"
    by (simp_all only: length_replicate) simp
  have "fst (base64_encode (Some ?x) (Some ?buf)) = - 2147483648"
    unfolding base64_encode_code len using x by (simp add: big)
  moreover have "base64_encode (Some []) (Some ''xxxxx'') = (ARUNIKA_ERROR_INVALID_PARAM, Some ''xxxxx'')"
    by (simp add: base64_encode_def)
  ultimately show ?thesis
    by (simp only:) simp
qed

text \<open>
  C4, as the code has it. For every byte sequence \<open>x\<close> that is not empty and every
  output buffer with room for the encoding and the terminating zero, \<^verbatim>\<open>base64_encode\<close>
  writes the standard encoding \<open>spec_base64 x\<close> followed by a zero and leaves the rest
  of the buffer alone; it returns the length of the encoding converted to \<^verbatim>\<open>int\<close>, which
  is the length itself when that is below \<open>2 ^ 31\<close>. The string written has
  \<open>4 * \<lceil>length x / 3\<rceil>\<close> characters, a multiple of 4, all of them from the table
  or \<^verbatim>\<open>=\<close>. For the empty sequence and every output buffer \<^verbatim>\<open>base64_encode\<close> returns
  \<^verbatim>\<open>ARUNIKA_ERROR_INVALID_PARAM\<close> and leaves the whole buffer as it was.
\<close>

theorem base64_encode_writes_standard:
  "(x \<noteq> [] \<and> 4 * ((length x + 2) div 3) < length buf \<longrightarrow>
      base64_encode (Some x) (Some buf) =
        (int_of_size_t (4 * ((length x + 2) div 3)),
         Some (spec_base64 x @ CHR 0x00 # drop (4 * ((length x + 2) div 3) + 1) buf)) \<and>
      (4 * ((length x + 2) div 3) < 2 ^ 31 \<longrightarrow>
         fst (base64_encode (Some x) (Some buf)) = int (4 * ((length x + 2) div 3))) \<and>
      c_str (the (snd (base64_encode (Some x) (Some buf)))) = spec_base64 x \<and>
      int (length (spec_base64 x)) = 4 * \<lceil>real (length x) / 3\<rceil> \<and>
      4 dvd length (spec_base64 x) \<and>
      set (spec_base64 x) \<subseteq> set base64_table \<union> {CHR ''=''}) \<and>
   base64_encode (Some []) (Some buf) = (ARUNIKA_ERROR_INVALID_PARAM, Some buf)"
proof (intro conjI impI)
  assume "x \<noteq> [] \<and> 4 * ((length x + 2) div 3) < length buf"
  then have assms: "x \<noteq> []" "4 * ((length x + 2) div 3) < length buf"
    by simp_all
  note out = base64_encode_output [OF assms]
  show "base64_encode (Some x) (Some buf) =
        (int_of_size_t (4 * ((length x + 2) div 3)),
         Some (spec_base64 x @ CHR 0x00 # drop (4 * ((length x + 2) div 3) + 1) buf))"
    by (rule out)
  have "c_str (spec_base64 x @ CHR 0x00 # drop (4 * ((length x + 2) div 3) + 1) buf) = spec_base64 x"
    using spec_base64_no_nul [of x] by (simp add: c_str_def takeWhile_append)
  then show "c_str (the (snd (base64_encode (Some x) (Some buf)))) = spec_base64 x"
    by (simp only: out snd_conv option.sel)
  show "int (length (spec_base64 x)) = 4 * \<lceil>real (length x) / 3\<rceil>"
    by (simp only: length_spec_base64 ceiling_thirds)
  show "4 dvd length (spec_base64 x)"
    by (simp only: length_spec_base64 dvd_triv_left)
  show "set (spec_base64 x) \<subseteq> set base64_table \<union> {CHR ''=''}"
    by (rule set_spec_base64)
  assume "4 * ((length x + 2) div 3) < 2 ^ 31"
  then show "fst (base64_encode (Some x) (Some buf)) = int (4 * ((length x + 2) div 3))"
    by (simp only: out fst_conv) (simp add: int_of_size_t_small)
next
  show "base64_encode (Some []) (Some buf) = (ARUNIKA_ERROR_INVALID_PARAM, Some buf)"
    by (simp add: base64_encode_def)
qed

text \<open>
  The encodings of \<^verbatim>\<open>f\<close>, \<^verbatim>\<open>fo\<close> and \<^verbatim>\<open>foo\<close> into a buffer of five characters, and
  the empty input with the same buffer.
\<close>

theorem base64_encode_writes_standard_witness:
  "base64_encode (Some [0x66]) (Some (replicate 5 (CHR ''x''))) = (4, Some (''Zg=='' @ [CHR 0x00])) \<and>
   base64_encode (Some [0x66, 0x6F]) (Some (replicate 5 (CHR ''x''))) = (4, Some (''Zm8='' @ [CHR 0x00])) \<and>
   base64_encode (Some [0x66, 0x6F, 0x6F]) (Some (replicate 5 (CHR ''x''))) = (4, Some (''Zm9v'' @ [CHR 0x00])) \<and>
   c_str (the (snd (base64_encode (Some [0x66]) (Some (replicate 5 (CHR ''x'')))))) = ''Zg=='' \<and>
   c_str (the (snd (base64_encode (Some [0x66, 0x6F]) (Some (replicate 5 (CHR ''x'')))))) = ''Zm8='' \<and>
   c_str (the (snd (base64_encode (Some [0x66, 0x6F, 0x6F]) (Some (replicate 5 (CHR ''x'')))))) = ''Zm9v'' \<and>
   base64_encode (Some []) (Some (replicate 5 (CHR ''x''))) =
     (ARUNIKA_ERROR_INVALID_PARAM, Some (replicate 5 (CHR ''x'')))"
proof -
  have f: "spec_base64 [0x66] = ''Zg==''"
    by (simp add: sextets_def base64_alphabet_def, code_simp)
  have fo: "spec_base64 [0x66, 0x6F] = ''Zm8=''"
    by (simp add: sextets_def base64_alphabet_def, code_simp)
  have foo: "spec_base64 [0x66, 0x6F, 0x6F] = ''Zm9v''"
    by (simp add: sextets_def base64_alphabet_def, code_simp)
  show ?thesis
    using base64_encode_writes_standard [of "[0x66]" "replicate 5 (CHR ''x'')", unfolded f]
      base64_encode_writes_standard [of "[0x66, 0x6F]" "replicate 5 (CHR ''x'')", unfolded fo]
      base64_encode_writes_standard [of "[0x66, 0x6F, 0x6F]" "replicate 5 (CHR ''x'')", unfolded foo]
    by (simp add: int_of_size_t_small c_str_def)
qed

subsection \<open>C5: The button\<close>

text \<open>
  An \<^verbatim>\<open>ai_response\<close> handled before \<^verbatim>\<open>device_init\<close> leaves the device in Idle with
  the audio subsystem not initialised; a button press then starts nothing and the device
  stays in Idle.
\<close>

theorem button_press_idle_counterexample:
  "current_state (run [IncomingMessage ''{\"type\":\"ai_response\"}''] boot_globals) = DEVICE_STATE_IDLE \<and>
   current_state (run [IncomingMessage ''{\"type\":\"ai_response\"}'', ButtonPress] boot_globals) = DEVICE_STATE_IDLE \<and>
   \<not> is_recording (run [IncomingMessage ''{\"type\":\"ai_response\"}'', ButtonPress] boot_globals)"
  by (simp add: run_defs)

text \<open>
  C5, as the code has it. In Idle with the audio subsystem initialised a button press
  starts the capture and moves the device to Recording; in Idle without it the press
  changes nothing; in Recording a press stops the capture and moves the device to
  Processing. The call returns \<^verbatim>\<open>ARUNIKA_OK\<close> in each case. Once \<^verbatim>\<open>device_init\<close> has
  run, the audio subsystem stays initialised whatever follows.
\<close>

theorem button_press_toggle:
  "(current_state s = DEVICE_STATE_IDLE \<and> audio_initialized s \<longrightarrow>
      fst (device_handle_button_press s) = ARUNIKA_OK \<and>
      current_state (snd (device_handle_button_press s)) = DEVICE_STATE_RECORDING \<and>
      is_recording (snd (device_handle_button_press s))) \<and>
   (current_state s = DEVICE_STATE_IDLE \<and> \<not> audio_initialized s \<longrightarrow>
      device_handle_button_press s = (ARUNIKA_OK, s)) \<and>
   (current_state s = DEVICE_STATE_RECORDING \<longrightarrow>
      fst (device_handle_button_press s) = ARUNIKA_OK \<and>
      current_state (snd (device_handle_button_press s)) = DEVICE_STATE_PROCESSING \<and>
      \<not> is_recording (snd (device_handle_button_press s))) \<and>
   audio_initialized (run ops (snd (device_init s0)))"
proof -
  have "audio_initialized (snd (device_init s0))"
    by (simp add: device_init_eq)
  then have "audio_initialized (run ops (snd (device_init s0)))"
    by (rule audio_initialized_run)
  moreover have "fst (device_handle_button_press s) = ARUNIKA_OK"
    by (simp add: device_defs split: device_state_t.split)
  moreover have "current_state s = DEVICE_STATE_IDLE \<and> \<not> audio_initialized s \<longrightarrow>
      device_handle_button_press s = (ARUNIKA_OK, s)"
    by (simp add: device_defs)
  ultimately show ?thesis
    by (simp add: button_press_fields)
qed

text \<open>
  Boot, press, press: Idle, Recording, Processing. And the press in Idle before any
  initialisation, which changes nothing.
\<close>

theorem button_press_toggle_witness:
  "current_state (run [DeviceInit] boot_globals) = DEVICE_STATE_IDLE \<and>
   audio_initialized (run [DeviceInit] boot_globals) \<and>
   current_state (run [DeviceInit, ButtonPress] boot_globals) = DEVICE_STATE_RECORDING \<and>
   is_recording (run [DeviceInit, ButtonPress] boot_globals) \<and>
   current_state (run [DeviceInit, ButtonPress, ButtonPress] boot_globals) = DEVICE_STATE_PROCESSING \<and>
   \<not> is_recording (run [DeviceInit, ButtonPress, ButtonPress] boot_globals) \<and>
   current_state boot_globals \<noteq> DEVICE_STATE_IDLE \<and>
   \<not> audio_initialized (run [IncomingMessage ''ai_response''] boot_globals) \<and>
   current_state (run [IncomingMessage ''ai_response''] boot_globals) = DEVICE_STATE_IDLE \<and>
   device_handle_button_press (run [IncomingMessage ''ai_response''] boot_globals) =
     (ARUNIKA_OK, run [IncomingMessage ''ai_response''] boot_globals)"
  using button_press_toggle [of "run [DeviceInit] boot_globals" "[]" boot_globals]
    button_press_toggle [of "run [DeviceInit, ButtonPress] boot_globals" "[]" boot_globals]
    button_press_toggle [of "run [IncomingMessage ''ai_response''] boot_globals" "[]" boot_globals]
  by (simp add: run_defs)

subsection \<open>C6: Boot\<close>

text \<open>
  From the boot state \<^verbatim>\<open>device_init\<close> leaves the device in Idle, not in Connecting,
  and neither the WiFi link nor the channel is connected.
\<close>

theorem device_init_connecting_counterexample:
  "device_init boot_globals =
     (ARUNIKA_OK,
      boot_globals\<lparr>audio_initialized := True, network_initialized := True, power_initialized := True,
        trace := [StateTransition DEVICE_STATE_INIT DEVICE_STATE_IDLE],
        current_state := DEVICE_STATE_IDLE\<rparr>) \<and>
   current_state (snd (device_init boot_globals)) \<noteq> DEVICE_STATE_CONNECTING \<and>
   \<not> wifi_connected (snd (device_init boot_globals)) \<and>
   \<not> websocket_connected (snd (device_init boot_globals))"
  by (simp add: run_defs)

text \<open>
  C6, as the code has it. \<^verbatim>\<open>device_init\<close> always returns \<^verbatim>\<open>ARUNIKA_OK\<close>; it marks
  the audio, network and power subsystems initialised, moves the device to Idle and
  changes nothing else, the WiFi link and the channel included. It is \<^verbatim>\<open>main\<close> that
  brings the session up afterwards: the WiFi link before the loop, the channel in the
  first pass of the loop, the device staying in Idle.
\<close>

theorem device_init_idle:
  "device_init s =
     (ARUNIKA_OK,
      s\<lparr>audio_initialized := True, network_initialized := True, power_initialized := True,
        trace := trace s @ [StateTransition (current_state s) DEVICE_STATE_IDLE],
        current_state := DEVICE_STATE_IDLE\<rparr>) \<and>
   wifi_connected (snd (device_init s)) = wifi_connected s \<and>
   websocket_connected (snd (device_init s)) = websocket_connected s \<and>
   wifi_connected (snd (main clock s)) \<and>
   websocket_connected (snd (main (now # clock) s)) \<and>
   current_state (snd (main clock s)) = DEVICE_STATE_IDLE"
  by (simp add: device_init_eq main_eq main_loop_fields main_loop_connected main_loop_body_connected
      delay_ms_def emit_def)

subsection \<open>C8: Messages that are not an answer of the server\<close>

text \<open>
  A message of an unknown type leaves every variable of the program as it was: nothing
  is counted. A message of an unknown type that carries the text \<^verbatim>\<open>ai_response\<close> in
  another field moves the device from Init to Idle.
\<close>

theorem unknown_message_counterexample:
  "device_process_incoming_message ''{\"type\":\"telemetry\"}'' boot_globals = (ARUNIKA_OK, boot_globals) \<and>
   current_state boot_globals = DEVICE_STATE_INIT \<and>
   current_state (snd (device_process_incoming_message ''{\"type\":\"telemetry\",\"note\":\"ai_response\"}'' boot_globals))
     = DEVICE_STATE_IDLE"
  by (simp add: run_defs)

text \<open>
  C8, as the code has it. For every message in which the text \<^verbatim>\<open>ai_response\<close> does
  not occur, \<^verbatim>\<open>strstr\<close> finds nothing and \<^verbatim>\<open>device_process_incoming_message\<close> returns \<^verbatim>\<open>ARUNIKA_OK\<close> and leaves all
  the globals as they were, the device state among them; there is no counter.
\<close>

theorem unmatched_message_dropped:
  "(\<forall>ps ss. message \<noteq> ps @ ''ai_response'' @ ss) \<Longrightarrow>
   strstr message ''ai_response'' = None \<and>
   device_process_incoming_message message s = (ARUNIKA_OK, s)"
  by (simp add: device_process_incoming_message_def strstr_None_iff del: append_Cons)

text \<open>
  A telemetry message while the device is recording.
\<close>

theorem unmatched_message_dropped_witness:
  "(\<forall>ps ss. ''{\"type\":\"telemetry\"}'' \<noteq> ps @ ''ai_response'' @ ss) \<and>
   current_state (run [DeviceInit, ButtonPress] boot_globals) = DEVICE_STATE_RECORDING \<and>
   device_process_incoming_message ''{\"type\":\"telemetry\"}'' (run [DeviceInit, ButtonPress] boot_globals) =
     (ARUNIKA_OK, run [DeviceInit, ButtonPress] boot_globals)"
proof -
  have h: "\<forall>ps ss. ''{\"type\":\"telemetry\"}'' \<noteq> ps @ ''ai_response'' @ ss"
    by (rule strstr_None_iff [THEN iffD1]) simp
  have r: "current_state (run [DeviceInit, ButtonPress] boot_globals) = DEVICE_STATE_RECORDING"
    by (simp add: run_defs)
  show ?thesis
    using h r unmatched_message_dropped [OF h, of "run [DeviceInit, ButtonPress] boot_globals"]
    by blast
qed

subsection \<open>C9: The answer of the server\<close>

text \<open>
  An \<^verbatim>\<open>ai_response\<close> handled in Processing leaves the device in Idle, not in Playing,
  and the trace of the execution has no buffer given to \<^verbatim>\<open>audio_play_buffer\<close>.
\<close>

theorem ai_response_playing_counterexample:
  "current_state (run [DeviceInit, ButtonPress, ButtonPress] boot_globals) = DEVICE_STATE_PROCESSING \<and>
   current_state (run [DeviceInit, ButtonPress, ButtonPress,
       IncomingMessage ''{\"type\":\"ai_response\",\"data\":\"Zm9v\"}''] boot_globals) = DEVICE_STATE_IDLE \<and>
   trace (run [DeviceInit, ButtonPress, ButtonPress,
       IncomingMessage ''{\"type\":\"ai_response\",\"data\":\"Zm9v\"}''] boot_globals) =
     [StateTransition DEVICE_STATE_INIT DEVICE_STATE_IDLE,
      StateTransition DEVICE_STATE_IDLE DEVICE_STATE_RECORDING,
      StateTransition DEVICE_STATE_RECORDING DEVICE_STATE_PROCESSING,
      StateTransition DEVICE_STATE_PROCESSING DEVICE_STATE_PLAYING,
      Delay 2000,
      StateTransition DEVICE_STATE_PLAYING DEVICE_STATE_IDLE]"
  by (simp add: run_defs)

text \<open>
  C9, as the code has it. For every message in which the text \<^verbatim>\<open>ai_response\<close> occurs
  and in every state, \<^verbatim>\<open>strstr\<close> finds it and \<^verbatim>\<open>device_process_incoming_message\<close> moves the device to Playing,
  waits 2000 ms, moves it to Idle and returns \<^verbatim>\<open>ARUNIKA_OK\<close>; it changes nothing else
  and plays no buffer.
\<close>

theorem ai_response_plays_then_idle:
  "message = ps @ ''ai_response'' @ ss \<Longrightarrow>
   strstr message ''ai_response'' \<noteq> None \<and>
   device_process_incoming_message message s =
     (ARUNIKA_OK,
      s\<lparr>trace := trace s @ [StateTransition (current_state s) DEVICE_STATE_PLAYING, Delay 2000,
                              StateTransition DEVICE_STATE_PLAYING DEVICE_STATE_IDLE],
        current_state := DEVICE_STATE_IDLE\<rparr>)"
proof -
  assume "message = ps @ ''ai_response'' @ ss"
  then have "strstr message ''ai_response'' \<noteq> None"
    unfolding strstr_None_iff by blast
  then show ?thesis
    by (simp add: device_defs)
qed

text \<open>
  The answer of the server in Processing.
\<close>

theorem ai_response_plays_then_idle_witness:
  "''{\"type\":\"ai_response\",\"data\":\"Zm9v\"}'' = ''{\"type\":\"'' @ ''ai_response'' @ ''\",\"data\":\"Zm9v\"}'' \<and>
   current_state (run [DeviceInit, ButtonPress, ButtonPress] boot_globals) = DEVICE_STATE_PROCESSING \<and>
   device_process_incoming_message ''{\"type\":\"ai_response\",\"data\":\"Zm9v\"}''
       (run [DeviceInit, ButtonPress, ButtonPress] boot_globals) =
     (ARUNIKA_OK,
      (run [DeviceInit, ButtonPress, ButtonPress] boot_globals)
        \<lparr>trace := trace (run [DeviceInit, ButtonPress, ButtonPress] boot_globals) @
           [StateTransition DEVICE_STATE_PROCESSING DEVICE_STATE_PLAYING, Delay 2000,
            StateTransition DEVICE_STATE_PLAYING DEVICE_STATE_IDLE],
         current_state := DEVICE_STATE_IDLE\<rparr>)"
proof -
  have h: "''{\"type\":\"ai_response\",\"data\":\"Zm9v\"}'' =
      ''{\"type\":\"'' @ ''ai_response'' @ ''\",\"data\":\"Zm9v\"}''"
    by simp
  have p: "current_state (run [DeviceInit, ButtonPress, ButtonPress] boot_globals) = DEVICE_STATE_PROCESSING"
    by (simp add: run_defs)
  show ?thesis
    using h p ai_response_plays_then_idle [OF h, of "run [DeviceInit, ButtonPress, ButtonPress] boot_globals"]
    by (simp only: p simp_thms)
qed

subsection \<open>C10: Saving and loading the configuration\<close>

text \<open>
  C10. For every configuration value \<open>c\<close> behind a non-NULL pointer, in every state of
  the globals, \<^verbatim>\<open>config_save(c)\<close> returns \<^verbatim>\<open>ARUNIKA_OK\<close>, and a \<^verbatim>\<open>config_load(out)\<close>
  after it, through any non-NULL pointer, returns \<^verbatim>\<open>ARUNIKA_OK\<close> and leaves \<open>c\<close>
  behind \<open>out\<close>, the whole record and so each of its six fields.
\<close>

theorem config_save_load_roundtrip:
  "fst (config_save (Some c) s) = ARUNIKA_OK \<and>
   config_load (Some out) (snd (config_save (Some c) s)) = (ARUNIKA_OK, Some c)"
  by (simp add: config_save_def config_load_def)

end
